theory Spec2Isabelle
  imports Complex_Main "HOL-Library.Multiset"
begin

section \<open>Numbers\<close>

text \<open>
  The cropper computes with Python ints and with float64 values (numpy arrays and the
  Python floats that \<^verbatim>\<open>tolist()\<close> gives back). Integers are \<^typ>\<open>int\<close>; float64
  values are modelled by exact rationals, with the two places where IEEE arithmetic
  leaves the rationals written out: a numpy division by zero gives \<^verbatim>\<open>inf\<close> or
  \<^verbatim>\<open>nan\<close> (with a warning, no exception), and a division of Python floats by zero
  raises \<^verbatim>\<open>ZeroDivisionError\<close>.
\<close>

datatype py_error = ZeroDivisionError

datatype np_float = Finite rat | PosInf | NegInf | NaN

definition np_divide :: "rat \<Rightarrow> rat \<Rightarrow> np_float" where
  "np_divide a b =
     (if b \<noteq> 0 then Finite (a / b)
      else if 0 < a then PosInf
      else if a < 0 then NegInf
      else NaN)"

fun np_greater :: "np_float \<Rightarrow> rat \<Rightarrow> bool" where
  "np_greater (Finite q) t = (t < q)"
| "np_greater PosInf t = True"
| "np_greater NegInf t = False"
| "np_greater NaN t = False"

definition py_int :: "rat \<Rightarrow> int" where
  \<comment> \<open>\<^verbatim>\<open>int(x)\<close> on a float: truncation towards zero\<close>
  "py_int q = (if 0 \<le> q then \<lfloor>q\<rfloor> else \<lceil>q\<rceil>)"

definition py_floordiv2 :: "rat \<Rightarrow> rat" where
  \<comment> \<open>\<^verbatim>\<open>w // 2\<close> on a float: the floor of the quotient, still a float\<close>
  "py_floordiv2 q = of_int \<lfloor>q / 2\<rfloor>"

section \<open>Detections\<close>

text \<open>
  A detection is the tuple \<^verbatim>\<open>(x, y, w, h, confidence)\<close> that
  \<^verbatim>\<open>detect_all_faces\<close> builds; \<^verbatim>\<open>np.array(faces)\<close> turns every component
  into a float64.
\<close>

record face =
  face_x :: rat
  face_y :: rat
  face_w :: rat
  face_h :: rat
  face_conf :: rat

definition x1 :: "face \<Rightarrow> rat" where "x1 f = face_x f"
definition y1 :: "face \<Rightarrow> rat" where "y1 f = face_y f"
definition x2 :: "face \<Rightarrow> rat" where "x2 f = face_x f + face_w f"
definition y2 :: "face \<Rightarrow> rat" where "y2 f = face_y f + face_h f"

definition intersection_area :: "face \<Rightarrow> face \<Rightarrow> rat" where
  \<comment> \<open>\<^verbatim>\<open>w * h\<close> of lines 110 to 116, for the pivot \<open>i\<close> and one remaining box \<open>j\<close>\<close>
  "intersection_area i j =
     (let xx1 = max (x1 i) (x1 j);
          yy1 = max (y1 i) (y1 j);
          xx2 = min (x2 i) (x2 j);
          yy2 = min (y2 i) (y2 j);
          w = max 0 (xx2 - xx1);
          h = max 0 (yy2 - yy1)
      in w * h)"

definition box_area :: "face \<Rightarrow> rat" where
  "box_area i = (x2 i - x1 i) * (y2 i - y1 i)"

definition overlap :: "face \<Rightarrow> face \<Rightarrow> np_float" where
  \<comment> \<open>line 118: the intersection over the area of the pivot \<open>i\<close>\<close>
  "overlap i j = np_divide (intersection_area i j) (box_area i)"

section \<open>Non-max suppression\<close>

text \<open>
  \<^verbatim>\<open>np.argsort(scores)\<close>: the indices in ascending order of score. Equal scores keep
  their index order, as numpy's insertion sort does on the short arrays met here.
\<close>

definition argsort :: "rat list \<Rightarrow> nat list" where
  "argsort scores = sort_key (\<lambda>i. scores ! i) [0..<length scores]"

text \<open>
  The \<^verbatim>\<open>while len(idxs) > 0\<close> loop: the head index is kept, and \<^verbatim>\<open>np.delete\<close>
  removes it together with every later index whose overlap with it exceeds the threshold.
\<close>

function nms_loop :: "face list \<Rightarrow> rat \<Rightarrow> nat list \<Rightarrow> nat list" where
  "nms_loop faces overlap_thresh [] = []"
| "nms_loop faces overlap_thresh (i # rest) =
     i # nms_loop faces overlap_thresh
           (filter (\<lambda>j. \<not> np_greater (overlap (faces ! i) (faces ! j)) overlap_thresh) rest)"
  by pat_completeness auto
termination
  by (relation "measure (\<lambda>(faces, t, idxs). length idxs)") (auto simp: le_imp_less_Suc)

definition non_max_suppression :: "face list \<Rightarrow> rat \<Rightarrow> face list" where
  "non_max_suppression faces overlap_thresh =
     (if length faces = 0 then []
      else let scores = map face_conf faces;
               idxs = rev (argsort scores);
               keep = nms_loop faces overlap_thresh idxs
           in map (\<lambda>i. faces ! i) keep)"

section \<open>Temporal focus tracker\<close>

text \<open>
  \<^verbatim>\<open>self.tracking_history\<close> is a \<^verbatim>\<open>deque(maxlen=10)\<close>, oldest entry first. It is
  a field of the cropper object, so every method that touches it takes the history and
  returns the updated one.
\<close>

type_synonym point = "int \<times> int"
type_synonym history = "point list"

definition deque_append :: "history \<Rightarrow> point \<Rightarrow> history" where
  \<comment> \<open>\<^verbatim>\<open>append\<close> on a full bounded deque drops the entry at the other end\<close>
  "deque_append h p = (if length h < 10 then h @ [p] else tl h @ [p])"

definition face_weight :: "face \<Rightarrow> rat" where
  "face_weight f = face_w f * face_h f * face_conf f"

definition center_x :: "face \<Rightarrow> rat" where
  "center_x f = face_x f + py_floordiv2 (face_w f)"

definition center_y :: "face \<Rightarrow> rat" where
  "center_y f = face_y f + py_floordiv2 (face_h f)"

fun weighted_totals :: "face list \<Rightarrow> rat \<times> rat \<times> rat \<Rightarrow> rat \<times> rat \<times> rat" where
  \<comment> \<open>the \<^verbatim>\<open>for face in faces\<close> loop over \<^verbatim>\<open>(total_x, total_y, total_weight)\<close>\<close>
  "weighted_totals [] acc = acc"
| "weighted_totals (f # fs) (total_x, total_y, total_weight) =
     weighted_totals fs
       (total_x + center_x f * face_weight f,
        total_y + center_y f * face_weight f,
        total_weight + face_weight f)"

definition new_focus :: "face list \<Rightarrow> int \<Rightarrow> int \<Rightarrow> point" where
  \<comment> \<open>lines 150 to 155: \<^verbatim>\<open>(new_x, new_y)\<close>\<close>
  "new_focus faces frame_width frame_height =
     (case weighted_totals faces (0, 0, 0) of
        (total_x, total_y, total_weight) \<Rightarrow>
          if 0 < total_weight
          then (py_int (total_x / total_weight), py_int (total_y / total_weight))
          else (frame_width div 2, frame_height div 2))"

definition last3_mean :: "int list \<Rightarrow> int" where
  \<comment> \<open>\<^verbatim>\<open>int(np.mean(xs[-3:]))\<close>\<close>
  "last3_mean xs =
     (let ys = drop (length xs - 3) xs
      in py_int (of_int (sum_list ys) / of_nat (length ys)))"

definition calculate_smooth_focus ::
  "history \<Rightarrow> face list \<Rightarrow> int \<Rightarrow> int \<Rightarrow> point \<times> history" where
  "calculate_smooth_focus h faces frame_width frame_height =
     (if faces = [] then
        (if h \<noteq> [] then (last h, h)
         else ((frame_width div 2, frame_height div 2), h))
      else
        let new = new_focus faces frame_width frame_height;
            h' = deque_append h new
        in if 3 \<le> length h'
           then ((last3_mean (map fst h'), last3_mean (map snd h')), h')
           else (new, h'))"

section \<open>Crop geometry planner\<close>

datatype crop_mode = Letterbox | Smart | Smart_smooth

record crop =
  mode :: crop_mode
  crop_x :: int
  crop_y :: int
  crop_w :: int
  crop_h :: int
  letterbox :: bool
  face_count :: nat

text \<open>
  The target aspect ratio arrives as a string such as \<^verbatim>\<open>9:16\<close>; the model takes the
  two numbers that \<^verbatim>\<open>split(':')\<close> and \<^verbatim>\<open>float\<close> read from it.
\<close>

type_synonym aspect_parts = "rat \<times> rat"

text \<open>
  \<^verbatim>\<open>min\<close> and \<^verbatim>\<open>max\<close> over the faces are only reached with at least two faces; the
  value on the empty list is never used.
\<close>

fun list_min :: "rat list \<Rightarrow> rat" where
  "list_min [] = 0"
| "list_min (v # vs) = fold min vs v"

fun list_max :: "rat list \<Rightarrow> rat" where
  "list_max [] = 0"
| "list_max (v # vs) = fold max vs v"

definition face_group_width :: "face list \<Rightarrow> rat" where
  "face_group_width faces = list_max (map x2 faces) - list_min (map x1 faces)"

definition face_group_height :: "face list \<Rightarrow> rat" where
  "face_group_height faces = list_max (map y2 faces) - list_min (map y1 faces)"

definition clamp_crop :: "int \<Rightarrow> int \<Rightarrow> int \<Rightarrow> int" where
  \<comment> \<open>\<^verbatim>\<open>max(0, min(crop_x, frame_width - width))\<close>\<close>
  "clamp_crop c frame_size size_c = max 0 (min c (frame_size - size_c))"

definition letterbox_crop :: "point \<Rightarrow> int \<Rightarrow> int \<Rightarrow> nat \<Rightarrow> crop" where
  \<comment> \<open>lines 213 to 236\<close>
  "letterbox_crop focus frame_width frame_height n =
     (let letterbox_height0 = frame_height;
          letterbox_width0 = py_int (of_int letterbox_height0 * 16 / 9);
          letterbox_width = (if frame_width < letterbox_width0 then frame_width else letterbox_width0);
          letterbox_height = (if frame_width < letterbox_width0
                              then py_int (of_int letterbox_width * 9 / 16) else letterbox_height0)
      in \<lparr> mode = Letterbox,
           crop_x = clamp_crop (fst focus - letterbox_width div 2) frame_width letterbox_width,
           crop_y = clamp_crop (snd focus - letterbox_height div 2) frame_height letterbox_height,
           crop_w = letterbox_width,
           crop_h = letterbox_height,
           letterbox = True,
           face_count = n \<rparr>)"

definition standard_crop :: "point \<Rightarrow> int \<Rightarrow> int \<Rightarrow> rat \<Rightarrow> nat \<Rightarrow> py_error + crop" where
  \<comment> \<open>lines 244 to 274\<close>
  "standard_crop focus frame_width frame_height target_aspect n =
     (if frame_height = 0 then Inl ZeroDivisionError
      else
        let current_aspect = (of_int frame_width :: rat) / of_int frame_height
        in if current_aspect < target_aspect \<and> target_aspect = 0 then Inl ZeroDivisionError
           else
             let target_width = (if current_aspect < target_aspect then frame_width
                                 else py_int (of_int frame_height * target_aspect));
                 target_height = (if current_aspect < target_aspect
                                  then py_int (of_int frame_width / target_aspect)
                                  else frame_height)
             in Inr \<lparr> mode = Smart,
                      crop_x = clamp_crop (fst focus - target_width div 2) frame_width target_width,
                      crop_y = clamp_crop (snd focus - target_height div 2) frame_height target_height,
                      crop_w = target_width,
                      crop_h = target_height,
                      letterbox = False,
                      face_count = n \<rparr>)"


definition calculate_dynamic_crop ::
  "history \<Rightarrow> face list \<Rightarrow> int \<Rightarrow> int \<Rightarrow> aspect_parts \<Rightarrow> (py_error + crop option) \<times> history" where
  "calculate_dynamic_crop h faces frame_width frame_height target_aspect_ratio =
     (if faces = [] then (Inr None, h)
      else if snd target_aspect_ratio = 0 then (Inl ZeroDivisionError, h)
      else
        let target_aspect = fst target_aspect_ratio / snd target_aspect_ratio;
            (focus, h') = calculate_smooth_focus h faces frame_width frame_height
        in if target_aspect < 1 \<and> 2 \<le> length faces \<and> 0 < face_group_height faces
           then
             (if frame_width = 0 then (Inl ZeroDivisionError, h')
              else if 3 / 2 < face_group_width faces / face_group_height faces
                      \<and> 2 / 5 < face_group_width faces / of_int frame_width
              then (Inr (Some (letterbox_crop focus frame_width frame_height (length faces))), h')
              else (map_sum id Some
                      (standard_crop focus frame_width frame_height target_aspect (length faces)), h'))
           else (map_sum id Some
                   (standard_crop focus frame_width frame_height target_aspect (length faces)), h'))"

section \<open>Sampling and aggregation controller\<close>

text \<open>
  What the controller sees of a video through \<^verbatim>\<open>cv2.VideoCapture\<close>: whether it
  opened, its properties, and for a frame position either no frame (\<^verbatim>\<open>ret\<close> false)
  or a frame, which stands here for the detections \<^verbatim>\<open>all_faces\<close> that the cascades of
  \<^verbatim>\<open>detect_all_faces\<close> find in it.
\<close>

record video =
  cap_opened :: bool
  cap_frame_width :: int
  cap_frame_height :: int
  cap_frame_count :: int
  cap_read :: "int \<Rightarrow> face list option"

definition detect_all_faces :: "face list \<Rightarrow> face list" where
  \<comment> \<open>line 86, with the default threshold of \<^verbatim>\<open>non_max_suppression\<close>\<close>
  "detect_all_faces all_faces = non_max_suppression all_faces (3 / 10)"

definition average :: "nat list \<Rightarrow> rat" where
  \<comment> \<open>\<^verbatim>\<open>np.mean(face_counts) if face_counts else 0\<close>\<close>
  "average ns = (if ns \<noteq> [] then of_nat (sum_list ns) / of_nat (length ns) else 0)"

definition letterbox_rate :: "crop list \<Rightarrow> rat" where
  "letterbox_rate all_crops =
     (if all_crops \<noteq> []
      then of_nat (length (filter letterbox all_crops)) / of_nat (length all_crops) else 0)"

definition hysteresis :: "crop list \<Rightarrow> nat list \<Rightarrow> bool" where
  \<comment> \<open>line 334\<close>
  "hysteresis all_crops face_counts =
     (2 \<le> average face_counts \<and> 3 / 5 < letterbox_rate all_crops)"

definition median_of :: "int list \<Rightarrow> int" where
  \<comment> \<open>\<^verbatim>\<open>sorted(vs)[len(vs) // 2]\<close>, used on the non-empty \<^verbatim>\<open>all_crops\<close>\<close>
  "median_of vs = sort vs ! (length vs div 2)"

definition aggregate_crops :: "crop list \<Rightarrow> nat list \<Rightarrow> crop option" where
  \<comment> \<open>lines 319 to 365\<close>
  "aggregate_crops all_crops face_counts =
     (if all_crops = [] then None
      else
        let letterbox_crops = filter letterbox all_crops
        in if hysteresis all_crops face_counts
           then Some (letterbox_crops ! (length letterbox_crops div 2))
           else Some \<lparr> mode = Smart_smooth,
                       crop_x = median_of (map crop_x all_crops),
                       crop_y = median_of (map crop_y all_crops),
                       crop_w = median_of (map crop_w all_crops),
                       crop_h = median_of (map crop_h all_crops),
                       letterbox = False,
                       face_count = 1 \<rparr>)"

text \<open>
  The \<^verbatim>\<open>for i in range(num_samples)\<close> loop, over the sample indices still to visit.
  A failed read leaves the loop (\<^verbatim>\<open>break\<close>); an exception of the planner leaves the
  whole analysis.
\<close>

fun sample_loop ::
  "video \<Rightarrow> aspect_parts \<Rightarrow> int \<Rightarrow> nat list \<Rightarrow> history \<Rightarrow> crop list \<Rightarrow> nat list
     \<Rightarrow> (py_error + crop list \<times> nat list) \<times> history" where
  "sample_loop v target_aspect_ratio sample_interval [] h all_crops face_counts =
     (Inr (all_crops, face_counts), h)"
| "sample_loop v target_aspect_ratio sample_interval (i # is) h all_crops face_counts =
     (let frame_pos = min (int i * sample_interval) (cap_frame_count v - 1)
      in case cap_read v frame_pos of
           None \<Rightarrow> (Inr (all_crops, face_counts), h)
         | Some frame \<Rightarrow>
             let faces = detect_all_faces frame;
                 face_counts' = face_counts @ [length faces]
             in if faces \<noteq> [] then
                  (case calculate_dynamic_crop h faces (cap_frame_width v) (cap_frame_height v)
                          target_aspect_ratio of
                     (Inl e, h') \<Rightarrow> (Inl e, h')
                   | (Inr None, h') \<Rightarrow>
                       sample_loop v target_aspect_ratio sample_interval is h' all_crops face_counts'
                   | (Inr (Some c), h') \<Rightarrow>
                       sample_loop v target_aspect_ratio sample_interval is h'
                         (all_crops @ [c]) face_counts')
                else sample_loop v target_aspect_ratio sample_interval is h all_crops face_counts')"

definition analyze_video_smooth ::
  "history \<Rightarrow> video \<Rightarrow> aspect_parts \<Rightarrow> int \<Rightarrow> (py_error + crop option) \<times> history" where
  "analyze_video_smooth h v target_aspect_ratio num_samples =
     (if \<not> cap_opened v then (Inr None, h)
      else if num_samples = 0 then (Inl ZeroDivisionError, h)
      else
        let sample_interval = max 1 (cap_frame_count v div num_samples)
        in case sample_loop v target_aspect_ratio sample_interval [0..<nat num_samples] h [] [] of
             (Inl e, h') \<Rightarrow> (Inl e, h')
           | (Inr (all_crops, face_counts), h') \<Rightarrow> (Inr (aggregate_crops all_crops face_counts), h'))"

text \<open>
  \<^verbatim>\<open>advanced_cropper\<close> is one module-level instance, created at import with an empty
  history; \<^verbatim>\<open>smooth_smart_crop_video\<close> runs every analysis on it with 15 samples. The
  history that one analysis leaves is the history the next one starts from.
\<close>

definition advanced_cropper :: history where
  "advanced_cropper = []"

definition smooth_smart_crop_video ::
  "history \<Rightarrow> video \<Rightarrow> aspect_parts \<Rightarrow> (py_error + crop option) \<times> history" where
  \<comment> \<open>line 430: the analysis step, on the state of the global instance\<close>
  "smooth_smart_crop_video h v aspect_ratio = analyze_video_smooth h v aspect_ratio 15"

fun run_analyses :: "history \<Rightarrow> (video \<times> aspect_parts) list \<Rightarrow> history" where
  \<comment> \<open>the state of the global instance after a sequence of calls\<close>
  "run_analyses h [] = h"
| "run_analyses h ((v, a) # rest) = run_analyses (snd (smooth_smart_crop_video h v a)) rest"

section \<open>The tracker in the words of the specification\<close>


definition keep_last :: "nat \<Rightarrow> 'a list \<Rightarrow> 'a list" where
  "keep_last n xs = drop (length xs - n) xs"



section \<open>Example inputs\<close>

definition mk_face :: "rat \<Rightarrow> rat \<Rightarrow> rat \<Rightarrow> rat \<Rightarrow> rat \<Rightarrow> face" where
  \<comment> \<open>the tuple \<^verbatim>\<open>(x, y, w, h, confidence)\<close>\<close>
  "mk_face x y w h c = \<lparr>face_x = x, face_y = y, face_w = w, face_h = h, face_conf = c\<rparr>"

definition three_faces :: "face list" where
  \<comment> \<open>two overlapping detections and a third one far away\<close>
  "three_faces =
     [mk_face 10 10 100 100 (9 / 10), mk_face 20 20 100 100 (6 / 10), mk_face 500 500 50 50 (8 / 10)]"


definition zero_area_first :: "face list" where
  \<comment> \<open>a detection of zero width and height with the highest confidence, and a proper box\<close>
  "zero_area_first = [mk_face 0 0 0 0 1, mk_face 0 0 100 100 (8 / 10)]"

definition zero_width_inside :: "face list" where
  \<comment> \<open>a proper box and, inside it, a detection of zero width with a lower confidence\<close>
  "zero_width_inside = [mk_face 0 0 100 100 1, mk_face 50 50 0 20 (6 / 10)]"








definition centre_face_video :: video where
  \<comment> \<open>only the first frame can be read; it shows one face in the middle\<close>
  "centre_face_video =
     \<lparr>cap_opened = True, cap_frame_width = 1920, cap_frame_height = 1080, cap_frame_count = 30,
      cap_read = (\<lambda>pos. if pos = 0 then Some [mk_face 920 500 80 80 1] else None)\<rparr>"

definition right_face_video :: video where
  \<comment> \<open>only the frames 0 and 2 can be read; they show one face on the right\<close>
  "right_face_video =
     \<lparr>cap_opened = True, cap_frame_width = 1920, cap_frame_height = 1080, cap_frame_count = 30,
      cap_read = (\<lambda>pos. if pos = 0 \<or> pos = 2 then Some [mk_face 1700 500 80 80 1] else None)\<rparr>"

definition gap_video :: video where
  \<comment> \<open>frame 0 shows no face, frame 2 cannot be read, every other frame shows one face\<close>
  "gap_video =
     \<lparr>cap_opened = True, cap_frame_width = 1920, cap_frame_height = 1080, cap_frame_count = 30,
      cap_read = (\<lambda>pos. if pos = 0 then Some [] else if pos = 2 then None
                        else Some [mk_face 920 500 80 80 1])\<rparr>"

section \<open>Properties of non-max suppression\<close>

lemma set_argsort: "set (argsort s) = {0..<length s}"
  by (simp add: argsort_def)


lemma sorted_argsort: "sorted (map (\<lambda>i. s ! i) (argsort s))"
  by (simp add: argsort_def)

lemma nms_loop_subset: "set (nms_loop faces t idxs) \<subseteq> set idxs"
  by (induction faces t idxs rule: nms_loop.induct) auto

text \<open>The loop only deletes indices, so any order among the indices survives it.\<close>

lemma nms_loop_sorted_wrt:
  "sorted_wrt R idxs \<Longrightarrow> sorted_wrt R (nms_loop faces t idxs)"
proof (induction faces t idxs rule: nms_loop.induct)
  case (1 faces t)
  then show ?case by simp
next
  case (2 faces t i rest)
  let ?rest' = "filter (\<lambda>j. \<not> np_greater (overlap (faces ! i) (faces ! j)) t) rest"
  from "2.prems" have "sorted_wrt R ?rest'" by (simp add: sorted_wrt_filter)
  then have "sorted_wrt R (nms_loop faces t ?rest')" by (rule "2.IH")
  moreover have "\<forall>j \<in> set (nms_loop faces t ?rest'). R i j"
    using "2.prems" nms_loop_subset [of faces t ?rest'] by auto
  ultimately show ?case by simp
qed

text \<open>Every kept index was compared with each index kept before it.\<close>

lemma nms_loop_no_overlap:
  "sorted_wrt (\<lambda>i j. \<not> np_greater (overlap (faces ! i) (faces ! j)) t) (nms_loop faces t idxs)"
proof (induction faces t idxs rule: nms_loop.induct)
  case (1 faces t)
  then show ?case by simp
next
  case (2 faces t i rest)
  let ?rest' = "filter (\<lambda>j. \<not> np_greater (overlap (faces ! i) (faces ! j)) t) rest"
  have a: "sorted_wrt (\<lambda>i j. \<not> np_greater (overlap (faces ! i) (faces ! j)) t)
              (nms_loop faces t ?rest')"
    by (rule "2.IH")
  have b: "\<forall>j \<in> set (nms_loop faces t ?rest'). \<not> np_greater (overlap (faces ! i) (faces ! j)) t"
    using nms_loop_subset [of faces t ?rest'] by auto
  show ?case
    by (simp only: nms_loop.simps sorted_wrt.simps) (use a b in blast)
qed


lemma nms_loop_keeps:
  "j \<in> set idxs \<Longrightarrow> (\<forall>i. \<not> np_greater (overlap (faces ! i) (faces ! j)) t)
   \<Longrightarrow> j \<in> set (nms_loop faces t idxs)"
proof (induction faces t idxs rule: nms_loop.induct)
  case (1 faces t)
  then show ?case by simp
next
  case (2 faces t i rest)
  show ?case
  proof (cases "j = i")
    case True
    then show ?thesis by simp
  next
    case False
    with "2.prems" have "j \<in> set (filter (\<lambda>j. \<not> np_greater (overlap (faces ! i) (faces ! j)) t) rest)"
      by simp
    then have "j \<in> set (nms_loop faces t
                 (filter (\<lambda>j. \<not> np_greater (overlap (faces ! i) (faces ! j)) t) rest))"
      using "2.prems"(2) by (rule "2.IH")
    then show ?thesis by simp
  qed
qed

lemma nms_nth:
  "non_max_suppression faces t =
     map (\<lambda>i. faces ! i) (nms_loop faces t (rev (argsort (map face_conf faces))))"
  by (simp add: non_max_suppression_def argsort_def)

lemma nms_keep_in_range:
  "i \<in> set (nms_loop faces t (rev (argsort (map face_conf faces)))) \<Longrightarrow> i < length faces"
  using nms_loop_subset [of faces t "rev (argsort (map face_conf faces))"]
  by (auto simp: set_argsort)

lemma nms_sorted_wrt_no_overlap:
  "sorted_wrt (\<lambda>a b. \<not> np_greater (overlap a b) t) (non_max_suppression faces t)"
  unfolding nms_nth sorted_wrt_map by (rule nms_loop_no_overlap)

lemma argsort_rev_sorted:
  "sorted_wrt (\<lambda>i j. s ! j \<le> s ! i) (rev (argsort s))"
  using sorted_argsort [of s] by (simp add: sorted_wrt_rev sorted_map)

lemma nms_sorted_by_confidence:
  "sorted_wrt (\<lambda>a b. face_conf b \<le> face_conf a) (non_max_suppression faces t)"
proof -
  let ?s = "map face_conf faces"
  let ?keep = "nms_loop faces t (rev (argsort ?s))"
  have "sorted_wrt (\<lambda>i j. ?s ! j \<le> ?s ! i) ?keep"
    by (rule nms_loop_sorted_wrt) (rule argsort_rev_sorted)
  then have "sorted_wrt (\<lambda>i j. face_conf (faces ! j) \<le> face_conf (faces ! i)) ?keep"
    by (rule sorted_wrt_mono_rel [rotated]) (use nms_keep_in_range [of _ faces t] in simp)
  then show ?thesis unfolding nms_nth sorted_wrt_map .
qed

lemma three_faces_nms:
  "non_max_suppression three_faces (3 / 10) =
     [mk_face 10 10 100 100 (9 / 10), mk_face 500 500 50 50 (8 / 10)]"
  by code_simp

text \<open>
  C2. The kept list is in descending order of confidence, and for any two kept detections
  the overlap ratio of the later one against the earlier one (the intersection area over
  the area of the earlier, higher-confidence box) does not exceed the threshold, whatever
  the threshold is.
\<close>

theorem nms_kept_pairs_within_threshold:
  assumes "i < j" and "j < length (non_max_suppression faces t)"
  shows "face_conf (non_max_suppression faces t ! j) \<le> face_conf (non_max_suppression faces t ! i)
       \<and> \<not> np_greater (overlap (non_max_suppression faces t ! i) (non_max_suppression faces t ! j)) t"
  using assms nms_sorted_by_confidence [of faces t] nms_sorted_wrt_no_overlap [of t faces]
  by (simp add: sorted_wrt_iff_nth_less)

theorem nms_kept_pairs_within_threshold_witness:
  "length (non_max_suppression three_faces (3 / 10)) = 2
   \<and> face_conf (non_max_suppression three_faces (3 / 10) ! 1)
       \<le> face_conf (non_max_suppression three_faces (3 / 10) ! 0)
   \<and> \<not> np_greater (overlap (non_max_suppression three_faces (3 / 10) ! 0)
                            (non_max_suppression three_faces (3 / 10) ! 1)) (3 / 10)"
proof -
  have len: "length (non_max_suppression three_faces (3 / 10)) = 2"
    by (simp add: three_faces_nms)
  have "(0::nat) < 1" and "1 < length (non_max_suppression three_faces (3 / 10))"
    by (simp_all add: len)
  from nms_kept_pairs_within_threshold [OF this] len show ?thesis by simp
qed

lemma zero_area_no_intersection:
  "box_area f = 0 \<Longrightarrow> intersection_area i f = 0 \<and> intersection_area f i = 0"
  by (auto simp: box_area_def intersection_area_def x1_def x2_def y1_def y2_def Let_def max_def min_def)

lemma zero_area_never_suppressed:
  "0 \<le> t \<Longrightarrow> box_area f = 0 \<Longrightarrow> \<not> np_greater (overlap i f) t"
  by (simp add: overlap_def np_divide_def zero_area_no_intersection)

lemma zero_area_pivot_nan: "box_area f = 0 \<Longrightarrow> overlap f g = NaN"
  by (simp add: overlap_def np_divide_def zero_area_no_intersection)

text \<open>
  C9 (as the code has it). Non-max suppression has no guard for zero-area detections:
  for a threshold that is not negative, every zero-area detection of the input is kept.
  When such a detection is the pivot, the ratio \<open>0 / 0\<close> is \<^verbatim>\<open>nan\<close> for every other
  box, which compares false against the threshold, so it suppresses nothing.
\<close>

theorem nms_keeps_zero_area:
  assumes "0 \<le> t" and "f \<in> set faces" and "box_area f = 0"
  shows "f \<in> set (non_max_suppression faces t) \<and> (\<forall>g. overlap f g = NaN)"
proof -
  from assms(2) obtain k where k: "k < length faces" "faces ! k = f"
    by (auto simp: in_set_conv_nth)
  have "k \<in> set (rev (argsort (map face_conf faces)))"
    using k(1) by (simp add: set_argsort)
  moreover have "\<forall>i. \<not> np_greater (overlap (faces ! i) (faces ! k)) t"
    using assms(1,3) k(2) by (simp add: zero_area_never_suppressed)
  ultimately have "k \<in> set (nms_loop faces t (rev (argsort (map face_conf faces))))"
    by (rule nms_loop_keeps)
  then have "faces ! k \<in> set (non_max_suppression faces t)"
    unfolding nms_nth by simp
  with k(2) assms(3) show ?thesis by (simp add: zero_area_pivot_nan)
qed

theorem nms_keeps_zero_area_witness:
  "(0::rat) \<le> 3 / 10 \<and> mk_face 50 50 0 20 (6 / 10) \<in> set zero_width_inside
   \<and> box_area (mk_face 50 50 0 20 (6 / 10)) = 0
   \<and> mk_face 50 50 0 20 (6 / 10) \<in> set (non_max_suppression zero_width_inside (3 / 10))"
proof -
  have a: "(0::rat) \<le> 3 / 10" by simp
  have b: "mk_face 50 50 0 20 (6 / 10) \<in> set zero_width_inside"
    by (simp add: zero_width_inside_def)
  have c: "box_area (mk_face 50 50 0 20 (6 / 10)) = 0"
    by (simp add: box_area_def mk_face_def x1_def x2_def)
  from nms_keeps_zero_area [OF a b c] a b c show ?thesis by simp
qed

text \<open>
  C9 as stated fails: the zero-area detection is in the output, and the division that
  compares it with the other box has a zero denominator.
\<close>

theorem nms_zero_area_counterexample:
  "box_area (mk_face 0 0 0 0 1) = 0
   \<and> non_max_suppression zero_area_first (3 / 10) = zero_area_first
   \<and> mk_face 0 0 0 0 1 \<in> set (non_max_suppression zero_area_first (3 / 10))
   \<and> overlap (mk_face 0 0 0 0 1) (mk_face 0 0 100 100 (8 / 10)) = NaN"
proof -
  have a: "non_max_suppression zero_area_first (3 / 10) = zero_area_first"
    by code_simp
  have b: "box_area (mk_face 0 0 0 0 1) = 0"
    by (simp add: box_area_def mk_face_def x1_def x2_def)
  have c: "overlap (mk_face 0 0 0 0 1) (mk_face 0 0 100 100 (8 / 10)) = NaN"
    using b by (rule zero_area_pivot_nan)
  have d: "mk_face 0 0 0 0 1 \<in> set (non_max_suppression zero_area_first (3 / 10))"
    unfolding a by (simp add: zero_area_first_def)
  from a b c d show ?thesis by blast
qed







section \<open>Properties of the aggregation\<close>









section \<open>Properties of the planner\<close>










lemma dynamic_crop_cases:
  assumes "fst (calculate_dynamic_crop h faces frame_width frame_height (a, b)) = Inr (Some c)"
  shows "c = letterbox_crop (fst (calculate_smooth_focus h faces frame_width frame_height))
               frame_width frame_height (length faces)
       \<or> standard_crop (fst (calculate_smooth_focus h faces frame_width frame_height))
               frame_width frame_height (a / b) (length faces) = Inr c"
proof -
  obtain focus h' where f: "calculate_smooth_focus h faces frame_width frame_height = (focus, h')"
    by (cases "calculate_smooth_focus h faces frame_width frame_height")
  show ?thesis
    using assms f
    by (cases "standard_crop focus frame_width frame_height (a / b) (length faces)")
       (simp_all add: calculate_dynamic_crop_def Let_def split: if_splits)
qed

lemma standard_crop_mode: "standard_crop focus fw fh ta n = Inr c \<Longrightarrow> mode c = Smart \<and> \<not> letterbox c"
  by (auto simp: standard_crop_def Let_def split: if_splits)

lemma dynamic_crop_flag:
  assumes "fst (calculate_dynamic_crop h faces frame_width frame_height (a, b)) = Inr (Some c)"
  shows "letterbox c = (mode c = Letterbox)"
  using dynamic_crop_cases [OF assms] by (auto simp: letterbox_crop_def Let_def dest: standard_crop_mode)






text \<open>
  In standard mode the tolerance \<open>1 / height\<close> itself can fail for a target wider than 1:
  a 1283 by 1000 frame cropped to 16:9 gives 1283 by 721.
\<close>

lemma standard_wide_target_example:
  "fst (calculate_dynamic_crop [] [mk_face 920 500 80 80 1] 1283 1000 (16, 9))
     = Inr (Some \<lparr>mode = Smart, crop_x = 0, crop_y = 180, crop_w = 1283, crop_h = 721,
                  letterbox = False, face_count = 1\<rparr>)
   \<and> \<not> \<bar>(1283::rat) / 721 - 16 / 9\<bar> \<le> 1 / 721
   \<and> \<bar>(1283::rat) / 721 - 16 / 9\<bar> \<le> max 1 (16 / 9) / 721"
proof -
  have "fst (calculate_dynamic_crop [] [mk_face 920 500 80 80 1] 1283 1000 (16, 9))
     = Inr (Some \<lparr>mode = Smart, crop_x = 0, crop_y = 180, crop_w = 1283, crop_h = 721,
                  letterbox = False, face_count = 1\<rparr>)"
    by code_simp
  then show ?thesis by simp
qed

section \<open>Properties of the tracker\<close>










section \<open>Properties of the sampling loop\<close>

lemma sample_loop_read_failure:
  assumes "cap_read v (min (int i * si) (cap_frame_count v - 1)) = None"
  shows "sample_loop v ar si (pre @ i # post) h crops counts = sample_loop v ar si pre h crops counts"
  using assms
  by (induction pre arbitrary: h crops counts)
     (auto simp: Let_def split: option.splits prod.splits sum.splits)

lemma upt_split:
  assumes "k < n"
  shows "[0..<n] = [0..<k] @ k # [Suc k..<n]"
proof -
  have "[0..<k + (n - k)] = [0..<k] @ [k..<k + (n - k)]"
    by (rule upt_add_eq_append) simp
  then show ?thesis using assms by (simp add: upt_conv_Cons)
qed

lemma aggregate_none_iff: "(aggregate_crops all_crops face_counts = None) = (all_crops = [])"
  by (simp add: aggregate_crops_def Let_def)

text \<open>
  C8 (as the code has it). A failed read at sample index \<open>k\<close> ends the sampling: the
  analysis is the aggregation of what the samples before \<open>k\<close> gave, and the indices
  after \<open>k\<close> are never visited. The aggregation returns no decision exactly when
  it is given no candidate.
\<close>

theorem read_failure_ends_sampling:
  assumes "cap_opened v" and "k < nat num_samples"
    and "cap_read v (min (int k * max 1 (cap_frame_count v div num_samples))
                        (cap_frame_count v - 1)) = None"
  shows "analyze_video_smooth h v ar num_samples =
           (case sample_loop v ar (max 1 (cap_frame_count v div num_samples)) [0..<k] h [] [] of
              (Inl e, h') \<Rightarrow> (Inl e, h')
            | (Inr (all_crops, face_counts), h') \<Rightarrow>
                (Inr (aggregate_crops all_crops face_counts), h'))
       \<and> (\<forall>all_crops face_counts.
             (aggregate_crops all_crops face_counts = None) = (all_crops = []))"
proof -
  let ?si = "max 1 (cap_frame_count v div num_samples)"
  from assms(2) have n: "num_samples \<noteq> 0" by auto
  have "sample_loop v ar ?si [0..<nat num_samples] h [] []
          = sample_loop v ar ?si ([0..<k] @ k # [Suc k..<nat num_samples]) h [] []"
    using upt_split [OF assms(2)] by simp
  also have "\<dots> = sample_loop v ar ?si [0..<k] h [] []"
    using assms(3) by (rule sample_loop_read_failure)
  finally have "sample_loop v ar ?si [0..<nat num_samples] h [] []
                  = sample_loop v ar ?si [0..<k] h [] []" .
  then show ?thesis
    using assms(1) n by (simp add: analyze_video_smooth_def Let_def aggregate_none_iff)
qed

lemma gap_video_loop: "sample_loop gap_video (9, 16) 2 [0..<1] [] [] [] = (Inr ([], [0]), [])"
  by code_simp

theorem read_failure_ends_sampling_witness:
  "cap_opened gap_video \<and> 1 < nat 15 \<and> cap_read gap_video 2 = None
   \<and> analyze_video_smooth [] gap_video (9, 16) 15 = (Inr None, [])"
proof -
  have a: "cap_opened gap_video" and b: "1 < nat 15" by (simp_all add: gap_video_def)
  have c: "cap_read gap_video (min (int 1 * max 1 (cap_frame_count gap_video div 15))
                                   (cap_frame_count gap_video - 1)) = None"
    by (simp add: gap_video_def)
  have d: "max 1 (cap_frame_count gap_video div 15) = 2" by (simp add: gap_video_def)
  have e: "cap_read gap_video 2 = None" by (simp add: gap_video_def)
  have "analyze_video_smooth [] gap_video (9, 16) 15 = (Inr None, [])"
    using read_failure_ends_sampling [OF a b c, of "[]" "(9, 16)"]
    unfolding d gap_video_loop by (simp add: aggregate_crops_def)
  with a b e show ?thesis by simp
qed

text \<open>
  C8 as stated fails: the read at sample index 1 fails, every later sample shows a face
  that the planner has a candidate for, and the analysis still returns no decision after
  recording the first sample only.
\<close>

theorem read_failure_not_skipped_counterexample:
  "cap_read gap_video 2 = None
   \<and> cap_read gap_video 4 = Some [mk_face 920 500 80 80 1]
   \<and> fst (calculate_dynamic_crop [] (detect_all_faces [mk_face 920 500 80 80 1]) 1920 1080 (9, 16))
       = Inr (Some \<lparr>mode = Smart, crop_x = 657, crop_y = 0, crop_w = 607, crop_h = 1080,
                    letterbox = False, face_count = 1\<rparr>)
   \<and> sample_loop gap_video (9, 16) 2 [0..<15] [] [] [] = (Inr ([], [0]), [])
   \<and> analyze_video_smooth [] gap_video (9, 16) 15 = (Inr None, [])"
proof -
  have a: "cap_read gap_video 2 = None" "cap_read gap_video 4 = Some [mk_face 920 500 80 80 1]"
    by (simp_all add: gap_video_def)
  have b: "fst (calculate_dynamic_crop [] (detect_all_faces [mk_face 920 500 80 80 1]) 1920 1080 (9, 16))
       = Inr (Some \<lparr>mode = Smart, crop_x = 657, crop_y = 0, crop_w = 607, crop_h = 1080,
                    letterbox = False, face_count = 1\<rparr>)"
    by code_simp
  have c: "sample_loop gap_video (9, 16) 2 [0..<15] [] [] [] = (Inr ([], [0]), [])"
    by code_simp
  have d: "analyze_video_smooth [] gap_video (9, 16) 15 = (Inr None, [])"
    by code_simp
  from a b c d show ?thesis by blast
qed

section \<open>The tracker history across analyses\<close>

lemma keep_last2_length: "length (keep_last 2 h) = min 2 (length h)"
  by (simp add: keep_last_def)

lemma keep_last2_nil: "(keep_last 2 h = []) = (h = [])"
  by (cases h) (auto simp: keep_last_def)

lemma keep_last2_last: "h \<noteq> [] \<Longrightarrow> last (keep_last 2 h) = last h"
  by (simp add: keep_last_def)

lemma keep_last2_ge2: "(2 \<le> length h) = (length (keep_last 2 h) = 2)"
  by (auto simp: keep_last_def)

lemma deque_append_ge3: "(3 \<le> length (deque_append h p)) = (2 \<le> length h)"
  by (cases h) (auto simp: deque_append_def)

lemma suc_pred2: "\<not> n \<le> Suc 0 \<Longrightarrow> Suc (n - Suc (Suc 0)) = n - Suc 0"
  by arith

lemma deque_append_last3:
  "2 \<le> length h \<Longrightarrow>
   drop (length (deque_append h p) - 3) (deque_append h p) = keep_last 2 h @ [p]"
  by (cases h) (auto simp: deque_append_def keep_last_def drop_Cons' Suc_diff_le numeral_2_eq_2)

lemma deque_append_keep_last2:
  "keep_last 2 (deque_append h p) = keep_last 2 (keep_last 2 h @ [p])"
  by (cases h) (auto simp: deque_append_def keep_last_def drop_Cons' Suc_diff_le numeral_2_eq_2 suc_pred2)

lemma last3_mean_suffix: "last3_mean xs = last3_mean (drop (length xs - 3) xs)"
  by (simp add: last3_mean_def Let_def)

lemma smooth_focus_suffix:
  assumes "keep_last 2 h1 = keep_last 2 h2"
  shows "fst (calculate_smooth_focus h1 faces fw fh) = fst (calculate_smooth_focus h2 faces fw fh)
       \<and> keep_last 2 (snd (calculate_smooth_focus h1 faces fw fh))
           = keep_last 2 (snd (calculate_smooth_focus h2 faces fw fh))"
proof (cases "faces = []")
  case True
  have "(h1 = []) = (h2 = [])"
    using assms keep_last2_nil [of h1] keep_last2_nil [of h2] by simp
  moreover have "last h1 = last h2" if "h1 \<noteq> []" "h2 \<noteq> []"
    using assms that keep_last2_last [of h1] keep_last2_last [of h2] by simp
  ultimately show ?thesis using True assms by (auto simp: calculate_smooth_focus_def)
next
  case False
  let ?new = "new_focus faces fw fh"
  have len: "(2 \<le> length h1) = (2 \<le> length h2)"
    using assms by (simp add: keep_last2_ge2)
  have mean: "last3_mean (map f (deque_append h1 ?new)) = last3_mean (map f (deque_append h2 ?new))"
    if "2 \<le> length h1" for f :: "point \<Rightarrow> int"
  proof -
    have "drop (length (map f (deque_append h ?new)) - 3) (map f (deque_append h ?new))
            = map f (keep_last 2 h @ [?new])" if "2 \<le> length h" for h
      using deque_append_last3 [OF that, of ?new] by (simp add: drop_map)
    then show ?thesis
      using that len assms
      by (subst last3_mean_suffix, subst (2) last3_mean_suffix) simp
  qed
  show ?thesis
    using False len mean assms
    by (simp add: calculate_smooth_focus_def Let_def deque_append_ge3 deque_append_keep_last2)
qed


lemma dynamic_crop_suffix:
  assumes "keep_last 2 h1 = keep_last 2 h2"
  shows "fst (calculate_dynamic_crop h1 faces fw fh ar) = fst (calculate_dynamic_crop h2 faces fw fh ar)
       \<and> keep_last 2 (snd (calculate_dynamic_crop h1 faces fw fh ar))
           = keep_last 2 (snd (calculate_dynamic_crop h2 faces fw fh ar))"
proof -
  obtain f1 k1 where c1: "calculate_smooth_focus h1 faces fw fh = (f1, k1)"
    by (cases "calculate_smooth_focus h1 faces fw fh")
  obtain f2 k2 where c2: "calculate_smooth_focus h2 faces fw fh = (f2, k2)"
    by (cases "calculate_smooth_focus h2 faces fw fh")
  from smooth_focus_suffix [OF assms, of faces fw fh] c1 c2
  have "f1 = f2" and "keep_last 2 k1 = keep_last 2 k2" by simp_all
  then show ?thesis
    using assms c1 c2 by (simp add: calculate_dynamic_crop_def Let_def)
qed

lemma sample_loop_suffix:
  "keep_last 2 h1 = keep_last 2 h2 \<Longrightarrow>
   fst (sample_loop v ar si idxs h1 crops counts) = fst (sample_loop v ar si idxs h2 crops counts)"
proof (induction idxs arbitrary: h1 h2 crops counts)
  case Nil
  then show ?case by simp
next
  case (Cons i idxs)
  show ?case
  proof (cases "cap_read v (min (int i * si) (cap_frame_count v - 1))")
    case None
    then show ?thesis by simp
  next
    case (Some frame)
    let ?faces = "detect_all_faces frame"
    let ?counts = "counts @ [length ?faces]"
    show ?thesis
    proof (cases "?faces = []")
      case True
      then show ?thesis using Some Cons.IH [OF Cons.prems] by (simp add: Let_def)
    next
      case False
      obtain r1 k1 where d1: "calculate_dynamic_crop h1 ?faces (cap_frame_width v)
                                (cap_frame_height v) ar = (r1, k1)"
        by (cases "calculate_dynamic_crop h1 ?faces (cap_frame_width v) (cap_frame_height v) ar")
      obtain r2 k2 where d2: "calculate_dynamic_crop h2 ?faces (cap_frame_width v)
                                (cap_frame_height v) ar = (r2, k2)"
        by (cases "calculate_dynamic_crop h2 ?faces (cap_frame_width v) (cap_frame_height v) ar")
      from dynamic_crop_suffix [OF Cons.prems, of ?faces "cap_frame_width v" "cap_frame_height v" ar]
        d1 d2
      have r: "r1 = r2" and k: "keep_last 2 k1 = keep_last 2 k2" by simp_all
      show ?thesis
        using Some False d1 d2 r Cons.IH [OF k]
        by (simp add: Let_def split: sum.splits option.splits)
    qed
  qed
qed

text \<open>
  C4 (as the code has it). The history is a field of the one module-level cropper and is
  never reset, so an analysis starts from the history that the analyses before it left.
  Its result depends on that history through the last two entries only: two starting
  histories that agree on their last two entries give the same result for the same video
  and arguments.
\<close>

theorem analysis_depends_on_last_two:
  assumes "keep_last 2 h1 = keep_last 2 h2"
  shows "fst (analyze_video_smooth h1 v ar num_samples) = fst (analyze_video_smooth h2 v ar num_samples)"
proof -
  let ?si = "max 1 (cap_frame_count v div num_samples)"
  obtain r1 k1 where s1: "sample_loop v ar ?si [0..<nat num_samples] h1 [] [] = (r1, k1)"
    by (cases "sample_loop v ar ?si [0..<nat num_samples] h1 [] []")
  obtain r2 k2 where s2: "sample_loop v ar ?si [0..<nat num_samples] h2 [] [] = (r2, k2)"
    by (cases "sample_loop v ar ?si [0..<nat num_samples] h2 [] []")
  from sample_loop_suffix [OF assms, of v ar ?si "[0..<nat num_samples]" "[]" "[]"] s1 s2
  have "r1 = r2" by simp
  then show ?thesis
    using s1 s2 by (simp add: analyze_video_smooth_def Let_def split: sum.splits prod.splits)
qed

theorem analysis_depends_on_last_two_witness:
  "keep_last 2 [(5, 5), (1740, 540), (1740, 540) :: point] = keep_last 2 [(1740, 540), (1740, 540)]
   \<and> fst (analyze_video_smooth [(5, 5), (1740, 540), (1740, 540)] centre_face_video (9, 16) 15)
       = fst (analyze_video_smooth [(1740, 540), (1740, 540)] centre_face_video (9, 16) 15)
   \<and> fst (analyze_video_smooth [(1740, 540), (1740, 540)] centre_face_video (9, 16) 15)
       = Inr (Some \<lparr>mode = Smart_smooth, crop_x = 1177, crop_y = 0, crop_w = 607, crop_h = 1080,
                    letterbox = False, face_count = 1\<rparr>)"
proof -
  have a: "keep_last 2 [(5, 5), (1740, 540), (1740, 540) :: point]
             = keep_last 2 [(1740, 540), (1740, 540)]"
    by (simp add: keep_last_def)
  have b: "fst (analyze_video_smooth [(1740, 540), (1740, 540)] centre_face_video (9, 16) 15)
       = Inr (Some \<lparr>mode = Smart_smooth, crop_x = 1177, crop_y = 0, crop_w = 607, crop_h = 1080,
                    letterbox = False, face_count = 1\<rparr>)"
    by code_simp
  from analysis_depends_on_last_two [OF a, of centre_face_video "(9, 16)" 15] a b
  show ?thesis by blast
qed

text \<open>
  C4 as stated fails: analysed first, the video with the face in the middle is cropped at
  \<open>x = 657\<close>; analysed after a video with a face on the right, which leaves two
  entries in the history, the same video with the same arguments is cropped at
  \<open>x = 1177\<close>.
\<close>

theorem analysis_history_counterexample:
  "fst (smooth_smart_crop_video advanced_cropper centre_face_video (9, 16))
     = Inr (Some \<lparr>mode = Smart_smooth, crop_x = 657, crop_y = 0, crop_w = 607, crop_h = 1080,
                  letterbox = False, face_count = 1\<rparr>)
   \<and> run_analyses advanced_cropper [(right_face_video, (9, 16))] = [(1740, 540), (1740, 540)]
   \<and> fst (smooth_smart_crop_video (run_analyses advanced_cropper [(right_face_video, (9, 16))])
            centre_face_video (9, 16))
     = Inr (Some \<lparr>mode = Smart_smooth, crop_x = 1177, crop_y = 0, crop_w = 607, crop_h = 1080,
                  letterbox = False, face_count = 1\<rparr>)
   \<and> fst (smooth_smart_crop_video (run_analyses advanced_cropper [(right_face_video, (9, 16))])
            centre_face_video (9, 16))
     \<noteq> fst (smooth_smart_crop_video advanced_cropper centre_face_video (9, 16))"
proof -
  have a: "fst (smooth_smart_crop_video advanced_cropper centre_face_video (9, 16))
     = Inr (Some \<lparr>mode = Smart_smooth, crop_x = 657, crop_y = 0, crop_w = 607, crop_h = 1080,
                  letterbox = False, face_count = 1\<rparr>)"
    by code_simp
  have b: "run_analyses advanced_cropper [(right_face_video, (9, 16))] = [(1740, 540), (1740, 540)]"
    by code_simp
  have c: "fst (smooth_smart_crop_video [(1740, 540), (1740, 540)] centre_face_video (9, 16))
     = Inr (Some \<lparr>mode = Smart_smooth, crop_x = 1177, crop_y = 0, crop_w = 607, crop_h = 1080,
                  letterbox = False, face_count = 1\<rparr>)"
    by code_simp
  show ?thesis unfolding b a c by simp
qed

section \<open>Candidates collected by the sampling loop\<close>

text \<open>
  Every candidate that the sampling loop collects comes from the planner, so its letterbox
  flag is set exactly when its mode is the letterbox mode: the candidate lists that the
  aggregation receives are of the kind its properties above are stated for.
\<close>

lemma sample_loop_flags:
  "sample_loop v ar si idxs h crops counts = (Inr (crops', counts'), h')
   \<Longrightarrow> \<forall>c \<in> set crops. letterbox c = (mode c = Letterbox)
   \<Longrightarrow> \<forall>c \<in> set crops'. letterbox c = (mode c = Letterbox)"
proof (induction idxs arbitrary: h crops counts)
  case Nil
  then show ?case by simp
next
  case (Cons i idxs)
  show ?case
  proof (cases "cap_read v (min (int i * si) (cap_frame_count v - 1))")
    case None
    then show ?thesis using Cons.prems by simp
  next
    case (Some frame)
    let ?faces = "detect_all_faces frame"
    show ?thesis
    proof (cases "?faces = []")
      case True
      then show ?thesis using Some Cons.prems Cons.IH by (simp add: Let_def)
    next
      case False
      obtain r k where d: "calculate_dynamic_crop h ?faces (cap_frame_width v)
                              (cap_frame_height v) ar = (r, k)"
        by (cases "calculate_dynamic_crop h ?faces (cap_frame_width v) (cap_frame_height v) ar")
      show ?thesis
      proof (cases r)
        case (Inl e)
        then show ?thesis using Some False d Cons.prems by (simp add: Let_def)
      next
        case (Inr oc)
        show ?thesis
        proof (cases oc)
          case None
          then show ?thesis using Some False d Inr Cons.prems Cons.IH by (simp add: Let_def)
        next
          case (Some c)
          have "fst (calculate_dynamic_crop h ?faces (cap_frame_width v) (cap_frame_height v)
                       (fst ar, snd ar)) = Inr (Some c)"
            using d Inr Some by simp
          then have "letterbox c = (mode c = Letterbox)" by (rule dynamic_crop_flag)
          then have "\<forall>c \<in> set (crops @ [c]). letterbox c = (mode c = Letterbox)"
            using Cons.prems(2) by simp
          moreover have "sample_loop v ar si idxs k (crops @ [c]) (counts @ [length ?faces])
                           = (Inr (crops', counts'), h')"
            using \<open>cap_read v _ = _\<close> False d Inr Some Cons.prems(1) by (simp add: Let_def)
          ultimately show ?thesis by (rule Cons.IH [rotated])
        qed
      qed
    qed
  qed
qed

end
